theory Spec2Isabelle
  imports Complex_Main "HOL-Library.Word" "HOL-Library.Log_Nat"
begin

unbundle bit_operations_syntax

section \<open>pymongo.json\_util: the extended-JSON hooks\<close>

text \<open>
  The module \<^verbatim>\<open>pymongo/json_util.py\<close> defines two functions, \<^verbatim>\<open>object_hook\<close> (decode a
  parsed JSON object into a PyMongo value) and \<^verbatim>\<open>default\<close> (encode a PyMongo value as a
  JSON-representable mapping). Both are embedded below as HOL functions over a datatype
  of Python values. The module is Python 2 code (2009-2010): \<^verbatim>\<open>/\<close> on two integers is
  floor division, \<^verbatim>\<open>int\<close> and \<^verbatim>\<open>long\<close> are one unbounded integer type here, and the
  \<^verbatim>\<open>datetime\<close> arithmetic follows CPython 2.7 on a platform with a 64-bit \<^verbatim>\<open>time_t\<close>.
\<close>

subsection \<open>Binary floating point (Python \<^verbatim>\<open>float\<close>)\<close>

text \<open>
  A Python float is an IEEE 754 binary64 value: a finite value is kept as the rational
  number it denotes, and the two infinities and NaN are constructors of their own. The
  sign of zero is dropped: nothing the module calls tells the two zeros apart.
\<close>

datatype pyfloat = Fin rat | PInf | NInf | NaN

definition pow2 :: "int \<Rightarrow> rat" where
  "pow2 e = (if 0 \<le> e then 2 ^ nat e else 1 / 2 ^ nat (- e))"

text \<open>Rounding to the nearest integer, ties to the even one.\<close>

definition round_half_even :: "rat \<Rightarrow> int" where
  "round_half_even q =
     (let f = \<lfloor>q\<rfloor>; d = q - of_int f
      in if d < 1 / 2 then f
         else if 1 / 2 < d then f + 1
         else if even f then f else f + 1)"

text \<open>
  The binary exponent of a non-zero rational: \<open>e\<close> with \<open>2 ^ e \<le> \<bar>x\<bar> < 2 ^ (e + 1)\<close>,
  not below the exponent \<open>- 1022\<close> of the subnormal range.
\<close>

definition double_exponent :: "rat \<Rightarrow> int" where
  "double_exponent x =
     (let (p, q) = quotient_of \<bar>x\<bar>;
          e = bitlen p - bitlen q;
          e' = (if pow2 e \<le> \<bar>x\<bar> then e else e - 1)
      in max e' (- 1022))"

text \<open>
  \<open>rnd x\<close> is the multiple of \<open>2 ^ (e - 52)\<close> nearest to \<open>x\<close> (53 significant bits,
  round-half-even): the result of a correctly rounded binary64 operation whose exact
  result is \<open>x\<close>, overflow apart.
\<close>

definition rnd :: "rat \<Rightarrow> rat" where
  "rnd x =
     (if x = 0 then 0
      else let u = pow2 (double_exponent x - 52)
           in of_int (round_half_even (x / u)) * u)"

definition round_double :: "rat \<Rightarrow> pyfloat" where
  "round_double x =
     (let r = rnd x
      in if 2 ^ 1024 \<le> \<bar>r\<bar> then (if 0 < x then PInf else NInf) else Fin r)"

text \<open>\<^verbatim>\<open>x / 1000.0\<close> on a float \<open>x\<close>.\<close>

fun float_div_1000 :: "pyfloat \<Rightarrow> pyfloat" where
  "float_div_1000 (Fin x) = round_double (x / 1000)"
| "float_div_1000 PInf = PInf"
| "float_div_1000 NInf = NInf"
| "float_div_1000 NaN = NaN"

subsection \<open>The proleptic Gregorian calendar (\<^verbatim>\<open>datetime\<close>, \<^verbatim>\<open>calendar\<close>)\<close>

definition is_leap :: "int \<Rightarrow> bool" where
  "is_leap y \<longleftrightarrow> y mod 4 = 0 \<and> (y mod 100 \<noteq> 0 \<or> y mod 400 = 0)"

definition days_before_year :: "int \<Rightarrow> int" where
  "days_before_year y =
     (y - 1) * 365 + (y - 1) div 4 - (y - 1) div 100 + (y - 1) div 400"

definition DAYS_IN_MONTH :: "int list" where
  "DAYS_IN_MONTH = [0, 31, 28, 31, 30, 31, 30, 31, 31, 30, 31, 30, 31]"

definition DAYS_BEFORE_MONTH :: "int list" where
  "DAYS_BEFORE_MONTH = [0, 0, 31, 59, 90, 120, 151, 181, 212, 243, 273, 304, 334]"

definition days_in_month :: "int \<Rightarrow> int \<Rightarrow> int" where
  "days_in_month y m =
     (if m = 2 \<and> is_leap y then 29 else DAYS_IN_MONTH ! nat m)"

definition days_before_month :: "int \<Rightarrow> int \<Rightarrow> int" where
  "days_before_month y m =
     DAYS_BEFORE_MONTH ! nat m + (if 2 < m \<and> is_leap y then 1 else 0)"

text \<open>\<^verbatim>\<open>date(y, m, d).toordinal()\<close>: day 1 is 0001-01-01.\<close>

definition ymd2ord :: "int \<Rightarrow> int \<Rightarrow> int \<Rightarrow> int" where
  "ymd2ord y m d = days_before_year y + days_before_month y m + d"

text \<open>
  \<^verbatim>\<open>ord_to_ymd\<close>, the inverse: the 400-, 100-, 4- and 1-year cycles are peeled off, the
  month is estimated as \<^verbatim>\<open>(n + 50) >> 5\<close> and corrected downwards when it overshoots.
\<close>

definition ord2ymd :: "int \<Rightarrow> int \<times> int \<times> int" where
  "ord2ymd ordinal =
     (let n = ordinal - 1;
          n400 = n div 146097; n = n mod 146097;
          n100 = n div 36524; n = n mod 36524;
          n4 = n div 1461; n = n mod 1461;
          n1 = n div 365; n = n mod 365;
          y = n400 * 400 + 1 + n100 * 100 + n4 * 4 + n1
      in if n1 = 4 \<or> n100 = 4 then (y - 1, 12, 31)
         else
           let leapyear = (n1 = 3 \<and> (n4 \<noteq> 24 \<or> n100 = 3));
               m = (n + 50) div 32;
               preceding = DAYS_BEFORE_MONTH ! nat m + (if 2 < m \<and> leapyear then 1 else 0)
           in if n < preceding
              then (y, m - 1,
                    n - (preceding - (DAYS_IN_MONTH ! nat (m - 1)
                                      + (if m - 1 = 2 \<and> leapyear then 1 else 0))) + 1)
              else (y, m, n - preceding + 1))"

text \<open>
  A \<^verbatim>\<open>datetime.datetime\<close>: the calendar fields and the UTC offset of its \<^verbatim>\<open>tzinfo\<close> in
  minutes (\<^verbatim>\<open>utcoffset()\<close>; \<open>None\<close> for a naive value). Python 2 requires the offset to be
  a whole number of minutes, strictly between \<open>- 1440\<close> and \<open>1440\<close>.
\<close>

record datetime =
  year :: int
  month :: int
  day :: int
  hour :: int
  minute :: int
  second :: int
  microsecond :: int
  utcoffset :: "int option"

definition MINYEAR :: int where "MINYEAR = 1"
definition MAXYEAR :: int where "MAXYEAR = 9999"
definition MAXORDINAL :: int where "MAXORDINAL = 3652059"

definition valid_date :: "int \<Rightarrow> int \<Rightarrow> int \<Rightarrow> bool" where
  "valid_date y m d \<longleftrightarrow>
     MINYEAR \<le> y \<and> y \<le> MAXYEAR \<and> 1 \<le> m \<and> m \<le> 12 \<and> 1 \<le> d \<and> d \<le> days_in_month y m"

definition valid_datetime :: "datetime \<Rightarrow> bool" where
  "valid_datetime dt \<longleftrightarrow>
     valid_date (year dt) (month dt) (day dt) \<and>
     0 \<le> hour dt \<and> hour dt < 24 \<and> 0 \<le> minute dt \<and> minute dt < 60 \<and>
     0 \<le> second dt \<and> second dt < 60 \<and>
     0 \<le> microsecond dt \<and> microsecond dt < 1000000 \<and>
     (case utcoffset dt of None \<Rightarrow> True | Some off \<Rightarrow> - 1440 < off \<and> off < 1440)"

text \<open>
  \<^verbatim>\<open>datetime - timedelta\<close> as CPython computes it: the delta's fields are subtracted from
  the datetime's, and carries are normalised unit by unit (\<^verbatim>\<open>normalize_pair\<close>); a day that
  left its month by one step is moved to the neighbouring month, any other through the
  ordinal; a year outside \<open>MINYEAR .. MAXYEAR\<close> is an \<^verbatim>\<open>OverflowError\<close>.
\<close>

record timedelta =
  td_days :: int
  td_seconds :: int
  td_microseconds :: int

text \<open>\<^verbatim>\<open>timedelta(minutes=off)\<close>, normalised: \<open>0 \<le> seconds < 86400\<close>.\<close>

definition timedelta_minutes :: "int \<Rightarrow> timedelta" where
  "timedelta_minutes off =
     \<lparr>td_days = (off * 60) div 86400, td_seconds = (off * 60) mod 86400,
      td_microseconds = 0\<rparr>"

definition normalize_pair :: "int \<Rightarrow> int \<Rightarrow> int \<Rightarrow> int \<times> int" where
  "normalize_pair hi lo factor =
     (if lo < 0 \<or> factor \<le> lo then (hi + lo div factor, lo mod factor) else (hi, lo))"

datatype date_error = DateOverflow

definition normalize_y_m_d :: "int \<Rightarrow> int \<Rightarrow> int \<Rightarrow> date_error + int \<times> int \<times> int" where
  "normalize_y_m_d y0 m0 d =
     (let (y, m) = (if m0 < 1 \<or> 12 < m0
                    then (let (y', m') = normalize_pair y0 (m0 - 1) 12 in (y', m' + 1))
                    else (y0, m0));
          dim = days_in_month y m;
          r = (if d < 1 \<or> dim < d then
                 (if d = 0 then
                    (if 0 < m - 1 then Inr (y, m - 1, days_in_month y (m - 1))
                     else Inr (y - 1, 12, 31))
                  else if d = dim + 1 then
                    (if 12 < m + 1 then Inr (y + 1, 1, 1) else Inr (y, m + 1, 1))
                  else
                    (let ordinal = ymd2ord y m 1 + d - 1
                     in if ordinal < 1 \<or> MAXORDINAL < ordinal then Inl DateOverflow
                        else Inr (ord2ymd ordinal)))
               else Inr (y, m, d))
      in case r of
           Inl e \<Rightarrow> Inl e
         | Inr (y', m', d') \<Rightarrow>
             if MINYEAR \<le> y' \<and> y' \<le> MAXYEAR then Inr (y', m', d') else Inl DateOverflow)"

definition datetime_sub :: "datetime \<Rightarrow> timedelta \<Rightarrow> date_error + datetime" where
  "datetime_sub dt delta =
     (let d0 = day dt - td_days delta;
          s0 = second dt - td_seconds delta;
          us0 = microsecond dt - td_microseconds delta;
          (s1, us) = normalize_pair s0 us0 1000000;
          (mi1, s) = normalize_pair (minute dt) s1 60;
          (h1, mi) = normalize_pair (hour dt) mi1 60;
          (d1, h) = normalize_pair d0 h1 24
      in case normalize_y_m_d (year dt) (month dt) d1 of
           Inl e \<Rightarrow> Inl e
         | Inr (y, m, d) \<Rightarrow>
             Inr (dt\<lparr>year := y, month := m, day := d, hour := h, minute := mi,
                     second := s, microsecond := us\<rparr>))"

text \<open>
  \<^verbatim>\<open>calendar.timegm(obj.timetuple())\<close>: the whole seconds between 1970-01-01T00:00:00 and
  the wall-clock fields, read as UTC.
\<close>

definition EPOCH_ORD :: int where
  "EPOCH_ORD = ymd2ord 1970 1 1"

definition timegm :: "datetime \<Rightarrow> int" where
  "timegm dt =
     (let days = ymd2ord (year dt) (month dt) 1 - EPOCH_ORD + day dt - 1;
          hours = days * 24 + hour dt;
          minutes = hours * 60 + minute dt
      in minutes * 60 + second dt)"

text \<open>
  \<^verbatim>\<open>datetime.fromtimestamp(t, utc)\<close> (CPython 2.7, \<^verbatim>\<open>datetime_from_timestamp\<close> with
  \<^verbatim>\<open>gmtime\<close>): the float is cast to \<^verbatim>\<open>time_t\<close> (truncation towards zero), the fraction is
  scaled to microseconds in double arithmetic and rounded half away from zero
  (\<^verbatim>\<open>round_to_long\<close>), a negative or full microsecond count is carried into the seconds,
  and the seconds are split into calendar fields. A value that is not finite, or whose
  year is outside \<open>MINYEAR .. MAXYEAR\<close>, is a \<^verbatim>\<open>ValueError\<close>. The result carries the
  \<^verbatim>\<open>utc\<close> tzinfo of \<^verbatim>\<open>pymongo.tz_util\<close> (offset 0).
\<close>

definition round_to_long :: "rat \<Rightarrow> int" where
  "round_to_long x = (if 0 \<le> x then \<lfloor>rnd (x + 1 / 2)\<rfloor> else \<lceil>rnd (x - 1 / 2)\<rceil>)"

definition utc_from_timet_and_us :: "int \<Rightarrow> int \<Rightarrow> datetime option" where
  "utc_from_timet_and_us timet us =
     (let days = timet div 86400; r = timet mod 86400; ordinal = days + EPOCH_ORD
      in if ordinal < 1 \<or> MAXORDINAL < ordinal then None
         else let (y, m, d) = ord2ymd ordinal
              in Some \<lparr>year = y, month = m, day = d, hour = r div 3600,
                       minute = (r mod 3600) div 60, second = r mod 60,
                       microsecond = us, utcoffset = Some 0\<rparr>)"

definition fromtimestamp_utc :: "pyfloat \<Rightarrow> datetime option" where
  "fromtimestamp_utc t =
     (case t of
        Fin x \<Rightarrow>
          (let timet = (if 0 \<le> x then \<lfloor>x\<rfloor> else \<lceil>x\<rceil>);
               fraction = rnd (x - of_int timet);
               us = round_to_long (rnd (fraction * 1000000));
               (timet1, us1) = (if us < 0 then (timet - 1, us + 1000000) else (timet, us));
               (timet2, us2) = (if us1 = 1000000 then (timet1 + 1, 0) else (timet1, us1))
           in utc_from_timet_and_us timet2 us2)
      | _ \<Rightarrow> None)"

subsection \<open>Python values and errors\<close>

text \<open>
  The values the two hooks meet: what the JSON parser builds (\<^verbatim>\<open>None\<close>, booleans,
  integers, floats, strings, lists, dicts with string keys) and the PyMongo types. A dict
  is an association list, looked up with \<open>map_of\<close>. \<open>PBinary\<close> is
  \<^verbatim>\<open>pymongo.binary.Binary\<close>, a subclass of \<^verbatim>\<open>str\<close> with a subtype, which the module
  does not encode. An \<^verbatim>\<open>ObjectId\<close> is its byte string; a compiled pattern is its
  \<^verbatim>\<open>pattern\<close> text and its \<^verbatim>\<open>flags\<close>; a \<^verbatim>\<open>Timestamp\<close> is its \<^verbatim>\<open>time\<close> and \<^verbatim>\<open>inc\<close>; a
  \<^verbatim>\<open>DBRef\<close> is its \<^verbatim>\<open>collection\<close>, \<^verbatim>\<open>id\<close> and \<^verbatim>\<open>database\<close>.
\<close>

datatype pyval =
    PNone
  | PBool bool
  | PInt int
  | PFloat pyfloat
  | PStr string
  | PList "pyval list"
  | PDict "(string \<times> pyval) list"
  | PObjectId "8 word list"
  | PDBRef pyval pyval pyval
  | PDatetime datetime
  | PPattern string int
  | PMinKey
  | PMaxKey
  | PTimestamp int int
  | PBinary string int

type_synonym pydict = "(string \<times> pyval) list"

text \<open>
  The exceptions. \<open>UnsupportedType r\<close> is the \<^verbatim>\<open>TypeError\<close> that \<^verbatim>\<open>default\<close> raises itself,
  with the message \<^verbatim>\<open>"%r is not JSON serializable"\<close> for the representation \<open>r\<close>;
  \<open>TypeError\<close> stands for the type errors raised inside library calls, \<open>ReError\<close> for
  \<^verbatim>\<open>re.error\<close>, \<open>InvalidId\<close> for \<^verbatim>\<open>pymongo.errors.InvalidId\<close>.
\<close>

datatype error =
    KeyError string
  | TypeError
  | UnsupportedType string
  | ValueError
  | OverflowError
  | InvalidId
  | ReError

text \<open>
  What the module calls in the Python runtime and the model leaves open is a parameter:
  whether \<^verbatim>\<open>re.compile\<close> accepts a pattern text under given flags, the flags a pattern
  text sets inline (\<^verbatim>\<open>(?i)\<close>), and \<^verbatim>\<open>str\<close> and \<^verbatim>\<open>repr\<close> of the values whose rendering is
  not modelled.
\<close>

record pyenv =
  re_valid :: "string \<Rightarrow> int \<Rightarrow> bool"
  re_inline_flags :: "string \<Rightarrow> int"
  str_other :: "pyval \<Rightarrow> string"
  py_repr :: "pyval \<Rightarrow> string"

subsubsection \<open>Dictionaries\<close>

definition has_key :: "pydict \<Rightarrow> string \<Rightarrow> bool" where
  "has_key dct k \<longleftrightarrow> map_of dct k \<noteq> None"

text \<open>\<^verbatim>\<open>dct[k]\<close> raises \<^verbatim>\<open>KeyError\<close> on a missing key; \<^verbatim>\<open>dct.get(k, d)\<close> returns \<open>d\<close>.\<close>

definition getitem :: "pydict \<Rightarrow> string \<Rightarrow> error + pyval" where
  "getitem dct k = (case map_of dct k of None \<Rightarrow> Inl (KeyError k) | Some v \<Rightarrow> Inr v)"

definition dict_get :: "pydict \<Rightarrow> string \<Rightarrow> pyval \<Rightarrow> pyval" where
  "dict_get dct k d = (case map_of dct k of None \<Rightarrow> d | Some v \<Rightarrow> v)"

subsubsection \<open>\<^verbatim>\<open>ObjectId\<close>\<close>

text \<open>
  Modelled from the spec: the class \<^verbatim>\<open>pymongo.objectid.ObjectId\<close> is not among the
  sources. An identifier is a 12-byte value rendered as 24 hex characters; its
  constructor takes that string form and fails (\<^verbatim>\<open>InvalidId\<close>) on a malformed one.
\<close>

definition hexdigit :: "nat \<Rightarrow> char" where
  "hexdigit n = ''0123456789abcdef'' ! n"

definition hex_of_byte :: "8 word \<Rightarrow> string" where
  "hex_of_byte w = [hexdigit (unat w div 16), hexdigit (unat w mod 16)]"

definition str_ObjectId :: "8 word list \<Rightarrow> string" where
  "str_ObjectId bs = concat (map hex_of_byte bs)"

definition hexval :: "char \<Rightarrow> nat option" where
  "hexval c =
     (let n = of_char c :: nat
      in if 48 \<le> n \<and> n \<le> 57 then Some (n - 48)
         else if 97 \<le> n \<and> n \<le> 102 then Some (n - 87)
         else if 65 \<le> n \<and> n \<le> 70 then Some (n - 55)
         else None)"

fun unhex :: "string \<Rightarrow> 8 word list option" where
  "unhex [] = Some []"
| "unhex [c] = None"
| "unhex (c # d # cs) =
     (case (hexval c, hexval d, unhex cs) of
        (Some h, Some l, Some bs) \<Rightarrow> Some (of_nat (16 * h + l) # bs)
      | _ \<Rightarrow> None)"

definition ObjectId_new :: "string \<Rightarrow> error + pyval" where
  "ObjectId_new s =
     (if length s = 24
      then (case unhex s of Some bs \<Rightarrow> Inr (PObjectId bs) | None \<Rightarrow> Inl InvalidId)
      else Inl InvalidId)"

definition valid_ObjectId :: "8 word list \<Rightarrow> bool" where
  "valid_ObjectId bs \<longleftrightarrow> length bs = 12"

subsubsection \<open>\<^verbatim>\<open>DBRef\<close>\<close>

text \<open>
  Modelled from the spec: the class \<^verbatim>\<open>pymongo.dbref.DBRef\<close> is not among the sources. A
  reference has a string collection name, an identifier value and an optional string
  database name; the constructor validates the two names; \<^verbatim>\<open>as_doc\<close> is the reference's
  plain document, \<^verbatim>\<open>$ref\<close> and \<^verbatim>\<open>$id\<close>, and \<^verbatim>\<open>$db\<close> only when a database is set.
\<close>

definition is_basestring :: "pyval \<Rightarrow> bool" where
  "is_basestring v = (case v of PStr s \<Rightarrow> True | PBinary s t \<Rightarrow> True | _ \<Rightarrow> False)"

definition DBRef_new :: "pyval \<Rightarrow> pyval \<Rightarrow> pyval \<Rightarrow> error + pyval" where
  "DBRef_new collection ident database =
     (if \<not> is_basestring collection then Inl TypeError
      else if database \<noteq> PNone \<and> \<not> is_basestring database then Inl TypeError
      else Inr (PDBRef collection ident database))"

definition as_doc :: "pyval \<Rightarrow> pyval \<Rightarrow> pyval \<Rightarrow> pydict" where
  "as_doc collection ident database =
     [(''$ref'', collection), (''$id'', ident)]
     @ (if database \<noteq> PNone then [(''$db'', database)] else [])"

definition valid_DBRef :: "pyval \<Rightarrow> pyval \<Rightarrow> bool" where
  "valid_DBRef collection database \<longleftrightarrow>
     is_basestring collection \<and> (database = PNone \<or> is_basestring database)"

subsubsection \<open>\<^verbatim>\<open>str\<close> and \<^verbatim>\<open>float\<close>\<close>

function digits10 :: "nat \<Rightarrow> string" where
  "digits10 n =
     (if n < 10 then [char_of (48 + n)]
      else digits10 (n div 10) @ [char_of (48 + n mod 10)])"
  by pat_completeness auto
termination
  by (relation "measure id") auto

definition str_int :: "int \<Rightarrow> string" where
  "str_int i = (if i < 0 then CHR ''-'' # digits10 (nat (- i)) else digits10 (nat i))"

text \<open>
  \<^verbatim>\<open>str(v)\<close>: a string is itself (a \<^verbatim>\<open>Binary\<close> is its bytes), an integer its decimal
  digits, an \<^verbatim>\<open>ObjectId\<close> its hex form; the other renderings are the environment's.
\<close>

definition py_str :: "pyenv \<Rightarrow> pyval \<Rightarrow> string" where
  "py_str E v =
     (case v of
        PStr s \<Rightarrow> s
      | PBinary s t \<Rightarrow> s
      | PInt n \<Rightarrow> str_int n
      | PNone \<Rightarrow> ''None''
      | PBool b \<Rightarrow> (if b then ''True'' else ''False'')
      | PObjectId bs \<Rightarrow> str_ObjectId bs
      | _ \<Rightarrow> str_other E v)"

definition is_space :: "char \<Rightarrow> bool" where
  "is_space c \<longleftrightarrow> (of_char c :: nat) \<in> {32, 9, 10, 11, 12, 13}"

definition is_digit :: "char \<Rightarrow> bool" where
  "is_digit c \<longleftrightarrow> 48 \<le> (of_char c :: nat) \<and> (of_char c :: nat) \<le> 57"

definition lower :: "char \<Rightarrow> char" where
  "lower c = (let n = of_char c :: nat in if 65 \<le> n \<and> n \<le> 90 then char_of (n + 32) else c)"

definition strip :: "string \<Rightarrow> string" where
  "strip s = rev (dropWhile is_space (rev (dropWhile is_space s)))"

definition digits_val :: "string \<Rightarrow> int" where
  "digits_val ds = foldl (\<lambda>a c. 10 * a + (int (of_char c) - 48)) 0 ds"

definition pow10 :: "int \<Rightarrow> rat" where
  "pow10 e = (if 0 \<le> e then 10 ^ nat e else 1 / 10 ^ nat (- e))"

definition split_sign :: "string \<Rightarrow> int \<times> string" where
  "split_sign s =
     (case s of
        [] \<Rightarrow> (1, s)
      | c # r \<Rightarrow> if c = CHR ''-'' then (- 1, r) else if c = CHR ''+'' then (1, r) else (1, s))"

definition parse_exponent :: "string \<Rightarrow> int option" where
  "parse_exponent s =
     (case s of
        [] \<Rightarrow> Some 0
      | c # r \<Rightarrow>
          if c = CHR ''e'' \<or> c = CHR ''E''
          then (let (sg, ds) = split_sign r
                in if ds \<noteq> [] \<and> list_all is_digit ds then Some (sg * digits_val ds) else None)
          else None)"

text \<open>
  \<^verbatim>\<open>float(s)\<close> for a string: surrounding whitespace is dropped; an optional sign is
  followed by \<^verbatim>\<open>inf\<close>, \<^verbatim>\<open>infinity\<close> or \<^verbatim>\<open>nan\<close> in any case, or by a decimal literal with
  an optional fraction and exponent, which is rounded to the nearest double.
\<close>

definition float_of_string :: "string \<Rightarrow> pyfloat option" where
  "float_of_string s =
     (let (sg, u) = split_sign (strip s); l = map lower u
      in if l = ''inf'' \<or> l = ''infinity'' then Some (if sg < 0 then NInf else PInf)
         else if l = ''nan'' then Some NaN
         else
           let ip = takeWhile is_digit u; r1 = dropWhile is_digit u;
               (fp, r2) = (case r1 of
                             [] \<Rightarrow> ([], r1)
                           | c # r \<Rightarrow> if c = CHR ''.''
                                      then (takeWhile is_digit r, dropWhile is_digit r)
                                      else ([], r1))
           in if ip = [] \<and> fp = [] then None
              else (case parse_exponent r2 of
                      None \<Rightarrow> None
                    | Some ex \<Rightarrow>
                        Some (round_double (of_int (sg * digits_val (ip @ fp))
                                            * pow10 (ex - int (length fp))))))"

text \<open>
  \<^verbatim>\<open>float(v)\<close>: an integer too large for a double is an \<^verbatim>\<open>OverflowError\<close>, a malformed
  string a \<^verbatim>\<open>ValueError\<close>, a value that is neither a number nor a string a \<^verbatim>\<open>TypeError\<close>.
\<close>

definition py_float :: "pyval \<Rightarrow> error + pyfloat" where
  "py_float v =
     (case v of
        PFloat f \<Rightarrow> Inr f
      | PInt n \<Rightarrow> (case round_double (of_int n) of Fin r \<Rightarrow> Inr (Fin r) | _ \<Rightarrow> Inl OverflowError)
      | PBool b \<Rightarrow> Inr (Fin (if b then 1 else 0))
      | PStr s \<Rightarrow> (case float_of_string s of Some f \<Rightarrow> Inr f | None \<Rightarrow> Inl ValueError)
      | PBinary s t \<Rightarrow> (case float_of_string s of Some f \<Rightarrow> Inr f | None \<Rightarrow> Inl ValueError)
      | _ \<Rightarrow> Inl TypeError)"

subsubsection \<open>\<^verbatim>\<open>re\<close> and the \<^verbatim>\<open>in\<close> operator\<close>

definition IGNORECASE :: int where "IGNORECASE = 2"
definition MULTILINE :: int where "MULTILINE = 8"

text \<open>
  \<^verbatim>\<open>re.compile(pattern, flags)\<close>: a pattern text is compiled when the environment accepts
  it, and the compiled pattern's flags are the given ones together with the inline ones;
  an already compiled pattern is returned as it is, and refused with flags.
\<close>

definition re_compile :: "pyenv \<Rightarrow> pyval \<Rightarrow> int \<Rightarrow> error + pyval" where
  "re_compile E pat flags =
     (case pat of
        PStr s \<Rightarrow> if re_valid E s flags then Inr (PPattern s (flags OR re_inline_flags E s))
                  else Inl ReError
      | PBinary s t \<Rightarrow> if re_valid E s flags then Inr (PPattern s (flags OR re_inline_flags E s))
                       else Inl ReError
      | PPattern s f \<Rightarrow> if flags \<noteq> 0 then Inl ValueError else Inr (PPattern s f)
      | _ \<Rightarrow> Inl TypeError)"

text \<open>
  \<^verbatim>\<open>c in v\<close> for a one-character string \<open>c\<close>: membership of the character in a string,
  of the string among the elements of a list, among the keys of a dict; a \<^verbatim>\<open>TypeError\<close>
  for a value that is not iterable.
\<close>

definition py_contains :: "char \<Rightarrow> pyval \<Rightarrow> error + bool" where
  "py_contains c v =
     (case v of
        PStr s \<Rightarrow> Inr (c \<in> set s)
      | PBinary s t \<Rightarrow> Inr (c \<in> set s)
      | PList xs \<Rightarrow> Inr (PStr [c] \<in> set xs)
      | PDict d \<Rightarrow> Inr (has_key d [c])
      | _ \<Rightarrow> Inl TypeError)"

subsection \<open>The decode hook\<close>

text \<open>
  \<^verbatim>\<open>object_hook(dct)\<close>: the sentinel keys are tested in the order of the source, and
  the first one present decides; every \<^verbatim>\<open>dct[...]\<close> is a direct access that raises
  \<^verbatim>\<open>KeyError\<close>, only \<^verbatim>\<open>$db\<close> is read with a default. A dict without sentinel key is
  returned as it is.
\<close>

definition object_hook :: "pyenv \<Rightarrow> pydict \<Rightarrow> error + pyval" where
  "object_hook E dct =
     (if has_key dct ''$oid'' then
        (case getitem dct ''$oid'' of
           Inl e \<Rightarrow> Inl e
         | Inr v \<Rightarrow> ObjectId_new (py_str E v))
      else if has_key dct ''$ref'' then
        (case getitem dct ''$ref'' of
           Inl e \<Rightarrow> Inl e
         | Inr c \<Rightarrow>
             (case getitem dct ''$id'' of
                Inl e \<Rightarrow> Inl e
              | Inr i \<Rightarrow> DBRef_new c i (dict_get dct ''$db'' PNone)))
      else if has_key dct ''$date'' then
        (case getitem dct ''$date'' of
           Inl e \<Rightarrow> Inl e
         | Inr v \<Rightarrow>
             (case py_float v of
                Inl e \<Rightarrow> Inl e
              | Inr f \<Rightarrow>
                  (case fromtimestamp_utc (float_div_1000 f) of
                     None \<Rightarrow> Inl ValueError
                   | Some dt \<Rightarrow> Inr (PDatetime dt))))
      else if has_key dct ''$regex'' then
        (case getitem dct ''$options'' of
           Inl e \<Rightarrow> Inl e
         | Inr o1 \<Rightarrow>
             (case py_contains CHR ''i'' o1 of
                Inl e \<Rightarrow> Inl e
              | Inr has_i \<Rightarrow>
                  (let flags1 = (if has_i then 0 OR IGNORECASE else 0)
                   in case getitem dct ''$options'' of
                        Inl e \<Rightarrow> Inl e
                      | Inr o2 \<Rightarrow>
                          (case py_contains CHR ''m'' o2 of
                             Inl e \<Rightarrow> Inl e
                           | Inr has_m \<Rightarrow>
                               (let flags2 = (if has_m then flags1 OR MULTILINE else flags1)
                                in case getitem dct ''$regex'' of
                                     Inl e \<Rightarrow> Inl e
                                   | Inr pat \<Rightarrow> re_compile E pat flags2)))))
      else if has_key dct ''$minKey'' then Inr PMinKey
      else if has_key dct ''$maxKey'' then Inr PMaxKey
      else Inr (PDict dct))"

subsection \<open>The encode hook\<close>

text \<open>
  \<^verbatim>\<open>default(obj)\<close>: the \<^verbatim>\<open>isinstance\<close> tests in the order of the source. An aware datetime
  has its UTC offset subtracted first; the milliseconds are
  \<^verbatim>\<open>int(calendar.timegm(obj.timetuple()) * 1000 + obj.microsecond / 1000)\<close>, with Python 2's
  integer division. The last equation is the \<^verbatim>\<open>raise TypeError\<close>.
\<close>

definition utc_normalized :: "datetime \<Rightarrow> error + datetime" where
  "utc_normalized obj =
     (case utcoffset obj of
        None \<Rightarrow> Inr obj
      | Some off \<Rightarrow>
          (case datetime_sub obj (timedelta_minutes off) of
             Inl e \<Rightarrow> Inl OverflowError
           | Inr obj' \<Rightarrow> Inr obj'))"

definition regex_options :: "int \<Rightarrow> string" where
  "regex_options f =
     (let flags = [];
          flags = (if f AND IGNORECASE \<noteq> 0 then flags @ ''i'' else flags);
          flags = (if f AND MULTILINE \<noteq> 0 then flags @ ''m'' else flags)
      in flags)"

fun default_hook :: "pyenv \<Rightarrow> pyval \<Rightarrow> error + pydict" where
  "default_hook E (PObjectId bs) = Inr [(''$oid'', PStr (py_str E (PObjectId bs)))]"
| "default_hook E (PDBRef c i db) = Inr (as_doc c i db)"
| "default_hook E (PDatetime obj) =
     (case utc_normalized obj of
        Inl e \<Rightarrow> Inl e
      | Inr obj' \<Rightarrow>
          Inr [(''$date'', PInt (timegm obj' * 1000 + microsecond obj' div 1000))])"
| "default_hook E (PPattern p f) =
     Inr [(''$regex'', PStr p), (''$options'', PStr (regex_options f))]"
| "default_hook E PMinKey = Inr [(''$minKey'', PInt 1)]"
| "default_hook E PMaxKey = Inr [(''$maxKey'', PInt 1)]"
| "default_hook E (PTimestamp t i) = Inr [(''t'', PInt t), (''i'', PInt i)]"
| "default_hook E obj = Inl (UnsupportedType (py_repr E obj))"

text \<open>The seven types that \<^verbatim>\<open>default\<close> tests for.\<close>

definition recognized :: "pyval \<Rightarrow> bool" where
  "recognized obj =
     (case obj of
        PObjectId bs \<Rightarrow> True | PDBRef c i db \<Rightarrow> True | PDatetime d \<Rightarrow> True
      | PPattern p f \<Rightarrow> True | PMinKey \<Rightarrow> True | PMaxKey \<Rightarrow> True | PTimestamp t i \<Rightarrow> True
      | _ \<Rightarrow> False)"

text \<open>\<^verbatim>\<open>object_hook(default(v))\<close>.\<close>

definition round_trip :: "pyenv \<Rightarrow> pyval \<Rightarrow> error + pyval" where
  "round_trip E v = (case default_hook E v of Inl e \<Rightarrow> Inl e | Inr d \<Rightarrow> object_hook E d)"

text \<open>A concrete environment: every pattern text compiles and sets no inline flag.\<close>

definition env0 :: pyenv where
  "env0 = \<lparr>re_valid = (\<lambda>s f. True), re_inline_flags = (\<lambda>s. 0),
           str_other = (\<lambda>v. ''<object>''), py_repr = (\<lambda>v. ''<object>'')\<rparr>"

text \<open>The sentinel keys, in the order in which \<^verbatim>\<open>object_hook\<close> tests them.\<close>

definition sentinel_keys :: "string list" where
  "sentinel_keys = [''$oid'', ''$ref'', ''$date'', ''$regex'', ''$minKey'', ''$maxKey'']"



text \<open>
  For the statements about datetimes: the seconds since midnight, the microseconds between
  1970-01-01T00:00:00 and the wall-clock fields, the UTC offset in seconds (0 for a naive
  value), and the ordinal of the day on which the value falls once its offset is
  subtracted, which has to be a day of the years 1 to 9999.
\<close>

definition tod_seconds :: "datetime \<Rightarrow> int" where
  "tod_seconds dt = hour dt * 3600 + minute dt * 60 + second dt"

definition epoch_us :: "datetime \<Rightarrow> int" where
  "epoch_us dt =
     ((ymd2ord (year dt) (month dt) (day dt) - EPOCH_ORD) * 86400 + tod_seconds dt) * 1000000
     + microsecond dt"

definition offset_seconds :: "datetime \<Rightarrow> int" where
  "offset_seconds dt = (case utcoffset dt of None \<Rightarrow> 0 | Some off \<Rightarrow> off * 60)"

definition utc_ordinal :: "datetime \<Rightarrow> int" where
  "utc_ordinal dt =
     ymd2ord (year dt) (month dt) (day dt) + (tod_seconds dt - offset_seconds dt) div 86400"

definition utc_in_range :: "datetime \<Rightarrow> bool" where
  "utc_in_range dt \<longleftrightarrow> 1 \<le> utc_ordinal dt \<and> utc_ordinal dt \<le> MAXORDINAL"

text \<open>A datetime from its fields, for the examples.\<close>

definition mk_datetime ::
  "int \<Rightarrow> int \<Rightarrow> int \<Rightarrow> int \<Rightarrow> int \<Rightarrow> int \<Rightarrow> int \<Rightarrow> int option \<Rightarrow> datetime" where
  "mk_datetime y m d h mi s us off =
     \<lparr>year = y, month = m, day = d, hour = h, minute = mi, second = s, microsecond = us,
      utcoffset = off\<rparr>"

(*PROPERTIES*)

section \<open>Properties\<close>

subsection \<open>Pass-through\<close>

text \<open>
  C3. A dict that contains none of the six sentinel keys is returned by \<^verbatim>\<open>object_hook\<close>
  unchanged: the result is the very association list that was passed in.
\<close>

theorem object_hook_passthrough:
  "\<forall>k \<in> set sentinel_keys. \<not> has_key dct k \<Longrightarrow> object_hook E dct = Inr (PDict dct)"
  by (simp add: sentinel_keys_def object_hook_def)

theorem object_hook_passthrough_witness:
  "list_all (\<lambda>k. \<not> has_key [(''name'', PStr ''x''), (''n'', PInt 3)] k) sentinel_keys
   \<and> object_hook env0 [(''name'', PStr ''x''), (''n'', PInt 3)]
       = Inr (PDict [(''name'', PStr ''x''), (''n'', PInt 3)])"
proof -
  have h: "\<forall>k \<in> set sentinel_keys. \<not> has_key [(''name'', PStr ''x''), (''n'', PInt 3)] k"
    by (simp add: sentinel_keys_def has_key_def)
  show ?thesis using h object_hook_passthrough [OF h, of env0] by (simp add: list_all_iff)
qed

subsection \<open>Timestamps are encoded only\<close>

text \<open>
  C4. A \<^verbatim>\<open>Timestamp\<close> with time \<open>t\<close> and increment \<open>i\<close> is encoded as the dict
  \<^verbatim>\<open>{"t": t, "i": i}\<close>, and \<^verbatim>\<open>object_hook\<close> returns that dict as a plain dict: decoding
  the encoding does not give the timestamp back.
\<close>

theorem timestamp_not_round_tripped:
  "default_hook E (PTimestamp t i) = Inr [(''t'', PInt t), (''i'', PInt i)]
   \<and> object_hook E [(''t'', PInt t), (''i'', PInt i)]
       = Inr (PDict [(''t'', PInt t), (''i'', PInt i)])
   \<and> round_trip E (PTimestamp t i) = Inr (PDict [(''t'', PInt t), (''i'', PInt i)])
   \<and> round_trip E (PTimestamp t i) \<noteq> Inr (PTimestamp t i)"
  by (simp add: round_trip_def object_hook_def has_key_def)

theorem timestamp_not_round_tripped_witness:
  "round_trip env0 (PTimestamp 4 13) = Inr (PDict [(''t'', PInt 4), (''i'', PInt 13)])"
  using timestamp_not_round_tripped [of env0 4 13] by simp

subsection \<open>Pattern flags\<close>

lemma and_mask_flags:
  "(f AND (IGNORECASE OR MULTILINE)) AND IGNORECASE = f AND IGNORECASE"
  "(f AND (IGNORECASE OR MULTILINE)) AND MULTILINE = f AND MULTILINE"
  by (simp_all add: IGNORECASE_def MULTILINE_def and.assoc)

text \<open>
  C6. The \<^verbatim>\<open>$options\<close> string of an encoded pattern contains \<^verbatim>\<open>i\<close> exactly when the
  \<^verbatim>\<open>IGNORECASE\<close> bit of the flags is set and \<^verbatim>\<open>m\<close> exactly when the \<^verbatim>\<open>MULTILINE\<close> bit is
  set, and no other character; it is empty when neither bit is set, and every other
  flag is dropped: the string only depends on those two bits.
\<close>

theorem pattern_options:
  "default_hook E (PPattern p f)
     = Inr [(''$regex'', PStr p), (''$options'', PStr (regex_options f))]
   \<and> regex_options f
     = (if f AND IGNORECASE \<noteq> 0 then ''i'' else []) @ (if f AND MULTILINE \<noteq> 0 then ''m'' else [])
   \<and> (CHR ''i'' \<in> set (regex_options f) \<longleftrightarrow> f AND IGNORECASE \<noteq> 0)
   \<and> (CHR ''m'' \<in> set (regex_options f) \<longleftrightarrow> f AND MULTILINE \<noteq> 0)
   \<and> set (regex_options f) \<subseteq> {CHR ''i'', CHR ''m''}
   \<and> (f AND IGNORECASE = 0 \<and> f AND MULTILINE = 0 \<longrightarrow> regex_options f = [])
   \<and> regex_options (f AND (IGNORECASE OR MULTILINE)) = regex_options f"
  by (simp add: regex_options_def and_mask_flags)

theorem pattern_options_witness:
  "default_hook env0 (PPattern ''a*b'' 2)
     = Inr [(''$regex'', PStr ''a*b''), (''$options'', PStr ''i'')]
   \<and> regex_options 8 = ''m'' \<and> regex_options 10 = ''im'' \<and> regex_options 0 = []
   \<and> (16 :: int) AND IGNORECASE = 0 \<and> (16 :: int) AND MULTILINE = 0 \<and> regex_options 16 = []"
  using pattern_options [of env0 "''a*b''" 2] pattern_options [of env0 "''a*b''" 8]
    pattern_options [of env0 "''a*b''" 10] pattern_options [of env0 "''a*b''" 0]
    pattern_options [of env0 "''a*b''" 16]
  by (simp add: IGNORECASE_def MULTILINE_def)

subsection \<open>Precedence of the sentinel keys\<close>






subsection \<open>Missing sibling fields\<close>














subsection \<open>Calendar arithmetic\<close>

lemma normalize_pair_eq: "0 < f \<Longrightarrow> normalize_pair hi lo f = (hi + lo div f, lo mod f)"
  by (auto simp: normalize_pair_def)

lemma month_cases:
  "1 \<le> (m::int) \<Longrightarrow> m \<le> 12 \<Longrightarrow>
   m = 1 \<or> m = 2 \<or> m = 3 \<or> m = 4 \<or> m = 5 \<or> m = 6 \<or> m = 7 \<or> m = 8 \<or> m = 9 \<or> m = 10
   \<or> m = 11 \<or> m = 12"
  by arith

lemma div_pred:
  fixes y k :: int
  assumes "0 < k"
  shows "(y - 1) div k = (if y mod k = 0 then y div k - 1 else y div k)"
proof (cases "y mod k = 0")
  case True
  have "y - 1 = k * (y div k - 1) + (k - 1)"
    using True by (simp add: algebra_simps) (metis mult.commute mult_div_mod_eq add.right_neutral)
  then have "(y - 1) div k = y div k - 1"
    using assms by (intro int_div_pos_eq [where r = "k - 1"]) auto
  with True show ?thesis by simp
next
  case False
  have "0 \<le> y mod k" "y mod k < k"
    using assms by simp_all
  with False have r: "0 < y mod k" "y mod k < k"
    by linarith+
  have "y - 1 = k * (y div k) + (y mod k - 1)" by simp
  then have "(y - 1) div k = y div k"
    using r by (intro int_div_pos_eq [where r = "y mod k - 1"]) auto
  with False show ?thesis by simp
qed

lemma mod_400_100: "(y::int) mod 400 = 0 \<Longrightarrow> y mod 100 = 0"
  by presburger

lemma mod_100_4: "(y::int) mod 100 = 0 \<Longrightarrow> y mod 4 = 0"
  by presburger

lemma days_before_year_Suc:
  "days_before_year (y + 1) = days_before_year y + (if is_leap y then 366 else 365)"
  using mod_400_100 [of y] mod_100_4 [of y]
  by (auto simp: days_before_year_def is_leap_def div_pred [of 4 y] div_pred [of 100 y]
      div_pred [of 400 y])

lemma days_in_month_bounds:
  "1 \<le> m \<Longrightarrow> m \<le> 12 \<Longrightarrow> 28 \<le> days_in_month y m \<and> days_in_month y m \<le> 31"
  by (drule (1) month_cases) (auto simp: days_in_month_def DAYS_IN_MONTH_def)

lemma days_before_month_Suc:
  "1 \<le> m \<Longrightarrow> m \<le> 11 \<Longrightarrow>
   days_before_month y (m + 1) = days_before_month y m + days_in_month y m"
proof -
  assume "1 \<le> m" "m \<le> 11"
  then have "m = 1 \<or> m = 2 \<or> m = 3 \<or> m = 4 \<or> m = 5 \<or> m = 6 \<or> m = 7 \<or> m = 8 \<or> m = 9
     \<or> m = 10 \<or> m = 11" by arith
  then show ?thesis
    by (auto simp: days_before_month_def days_in_month_def DAYS_IN_MONTH_def
        DAYS_BEFORE_MONTH_def)
qed

lemma days_before_month_1 [simp]: "days_before_month y 1 = 0"
  by (simp add: days_before_month_def DAYS_BEFORE_MONTH_def)

lemma days_before_month_12:
  "days_before_month y 12 + 31 = (if is_leap y then 366 else 365)"
  by (simp add: days_before_month_def DAYS_BEFORE_MONTH_def)

lemma days_in_month_12 [simp]: "days_in_month y 12 = 31"
  by (simp add: days_in_month_def DAYS_IN_MONTH_def)


lemma days_before_year_1 [simp]: "days_before_year 1 = 0"
  by (simp add: days_before_year_def)

lemma days_before_year_10000: "days_before_year 10000 = MAXORDINAL"
  by (simp add: days_before_year_def MAXORDINAL_def)

lemma days_before_year_mono: "y \<le> z \<Longrightarrow> days_before_year y \<le> days_before_year z"
proof (induction z rule: int_ge_induct)
  case base
  show ?case by simp
next
  case (step i)
  then show ?case using days_before_year_Suc [of i] by (simp split: if_splits)
qed

lemma year_length:
  "1 \<le> m \<Longrightarrow> m \<le> 12 \<Longrightarrow>
   days_before_month y m + days_in_month y m \<le> days_before_year (y + 1) - days_before_year y"
  by (drule (1) month_cases)
    (auto simp: days_before_year_Suc days_before_month_def days_in_month_def DAYS_IN_MONTH_def
      DAYS_BEFORE_MONTH_def)

lemma days_before_month_nonneg: "1 \<le> m \<Longrightarrow> m \<le> 12 \<Longrightarrow> 0 \<le> days_before_month y m"
  by (drule (1) month_cases) (auto simp: days_before_month_def DAYS_BEFORE_MONTH_def)

lemma ymd2ord_range:
  assumes "valid_date y m d"
  shows "1 \<le> ymd2ord y m d" "ymd2ord y m d \<le> MAXORDINAL"
proof -
  from assms have v: "1 \<le> y" "y \<le> 9999" "1 \<le> m" "m \<le> 12" "1 \<le> d" "d \<le> days_in_month y m"
    by (simp_all add: valid_date_def MINYEAR_def MAXYEAR_def)
  have "0 \<le> days_before_year y"
    using days_before_year_mono [of 1 y] v by simp
  then show "1 \<le> ymd2ord y m d"
    using days_before_month_nonneg [of m y] v by (simp add: ymd2ord_def)
  have "ymd2ord y m d \<le> days_before_year (y + 1)"
    using year_length [of m y] v by (simp add: ymd2ord_def)
  also have "\<dots> \<le> days_before_year 10000"
    using v by (intro days_before_year_mono) simp
  finally show "ymd2ord y m d \<le> MAXORDINAL"
    by (simp add: days_before_year_10000)
qed

lemma normalize_y_m_d_same:
  "valid_date y m d \<Longrightarrow> normalize_y_m_d y m d = Inr (y, m, d)"
  by (simp add: normalize_y_m_d_def valid_date_def)

lemma normalize_y_m_d_prev:
  assumes "valid_date y m 1"
  shows "normalize_y_m_d y m 0 =
           (if 1 \<le> ymd2ord y m 1 - 1 then
              Inr (if 1 < m then (y, m - 1, days_in_month y (m - 1)) else (y - 1, 12, 31))
            else Inl DateOverflow)"
    and "1 \<le> ymd2ord y m 1 - 1 \<Longrightarrow>
           (case (if 1 < m then (y, m - 1, days_in_month y (m - 1)) else (y - 1, 12, 31)) of
              (y', m', d') \<Rightarrow> valid_date y' m' d' \<and> ymd2ord y' m' d' = ymd2ord y m 1 - 1)"
proof -
  from assms have v: "1 \<le> y" "y \<le> 9999" "1 \<le> m" "m \<le> 12"
    by (simp_all add: valid_date_def MINYEAR_def MAXYEAR_def)
  have dim: "28 \<le> days_in_month y m" using days_in_month_bounds [of m y] v by simp
  have r: "1 \<le> ymd2ord y m 1 - 1 \<longleftrightarrow> 1 < m \<or> 2 \<le> y"
  proof (cases "1 < m")
    case True
    have "0 \<le> days_before_year y" using days_before_year_mono [of 1 y] v by simp
    moreover have "28 \<le> days_before_month y m"
      using days_before_month_Suc [of "m - 1" y] days_in_month_bounds [of "m - 1" y]
        days_before_month_nonneg [of "m - 1" y] True v by simp
    ultimately show ?thesis using True by (simp add: ymd2ord_def)
  next
    case False
    then have m: "m = 1" using v by simp
    show ?thesis
    proof (cases "2 \<le> y")
      case True
      have "days_before_year 2 \<le> days_before_year y" using True by (rule days_before_year_mono)
      then show ?thesis using True m by (simp add: ymd2ord_def days_before_year_def)
    next
      case False
      then have "y = 1" using v by simp
      then show ?thesis using m by (simp add: ymd2ord_def)
    qed
  qed
  show "normalize_y_m_d y m 0 =
           (if 1 \<le> ymd2ord y m 1 - 1 then
              Inr (if 1 < m then (y, m - 1, days_in_month y (m - 1)) else (y - 1, 12, 31))
            else Inl DateOverflow)"
    unfolding r using v dim
    by (auto simp: normalize_y_m_d_def MINYEAR_def MAXYEAR_def)
  assume "1 \<le> ymd2ord y m 1 - 1"
  with r have r': "1 < m \<or> 2 \<le> y" by simp
  show "case (if 1 < m then (y, m - 1, days_in_month y (m - 1)) else (y - 1, 12, 31)) of
              (y', m', d') \<Rightarrow> valid_date y' m' d' \<and> ymd2ord y' m' d' = ymd2ord y m 1 - 1"
  proof (cases "1 < m")
    case True
    then show ?thesis
      using v days_before_month_Suc [of "m - 1" y] days_in_month_bounds [of "m - 1" y]
      by (simp add: valid_date_def MINYEAR_def MAXYEAR_def ymd2ord_def)
  next
    case False
    then have m: "m = 1" using v by simp
    with r' have "2 \<le> y" by simp
    then show ?thesis
      using v m days_before_year_Suc [of "y - 1"] days_before_month_12 [of "y - 1"]
      by (simp add: valid_date_def MINYEAR_def MAXYEAR_def ymd2ord_def split: if_splits)
  qed
qed


lemma normalize_y_m_d_next:
  assumes "valid_date y m (days_in_month y m)"
  shows "normalize_y_m_d y m (days_in_month y m + 1) =
           (if ymd2ord y m (days_in_month y m) + 1 \<le> MAXORDINAL then
              Inr (if m < 12 then (y, m + 1, 1) else (y + 1, 1, 1))
            else Inl DateOverflow)"
    and "ymd2ord y m (days_in_month y m) + 1 \<le> MAXORDINAL \<Longrightarrow>
           (case (if m < 12 then (y, m + 1, 1) else (y + 1, 1, 1)) of
              (y', m', d') \<Rightarrow> valid_date y' m' d'
                \<and> ymd2ord y' m' d' = ymd2ord y m (days_in_month y m) + 1)"
proof -
  from assms have v: "1 \<le> y" "y \<le> 9999" "1 \<le> m" "m \<le> 12"
    by (simp_all add: valid_date_def MINYEAR_def MAXYEAR_def)
  have dim: "28 \<le> days_in_month y m" using days_in_month_bounds [of m y] v by simp
  have r: "ymd2ord y m (days_in_month y m) + 1 \<le> MAXORDINAL \<longleftrightarrow> m < 12 \<or> y \<le> 9998"
  proof (cases "m < 12")
    case True
    then have "valid_date y (m + 1) 1"
      using v days_in_month_bounds [of "m + 1" y]
      by (simp add: valid_date_def MINYEAR_def MAXYEAR_def)
    from ymd2ord_range(2) [OF this] show ?thesis
      using True v days_before_month_Suc [of m y] by (simp add: ymd2ord_def)
  next
    case False
    then have m: "m = 12" using v by simp
    have e: "ymd2ord y m (days_in_month y m) = days_before_year (y + 1)"
      using m days_before_year_Suc [of y] days_before_month_12 [of y]
      by (simp add: ymd2ord_def)
    show ?thesis
    proof (cases "y \<le> 9998")
      case True
      then have "days_before_year (y + 1) \<le> days_before_year 9999"
        by (intro days_before_year_mono) simp
      then show ?thesis using True m e by (simp add: days_before_year_def MAXORDINAL_def)
    next
      case False
      then have "y = 9999" using v by simp
      then show ?thesis using m e by (simp add: days_before_year_def MAXORDINAL_def)
    qed
  qed
  show "normalize_y_m_d y m (days_in_month y m + 1) =
           (if ymd2ord y m (days_in_month y m) + 1 \<le> MAXORDINAL then
              Inr (if m < 12 then (y, m + 1, 1) else (y + 1, 1, 1))
            else Inl DateOverflow)"
    unfolding r using v dim
    by (auto simp: normalize_y_m_d_def MINYEAR_def MAXYEAR_def)
  assume "ymd2ord y m (days_in_month y m) + 1 \<le> MAXORDINAL"
  with r have r': "m < 12 \<or> y \<le> 9998" by simp
  show "case (if m < 12 then (y, m + 1, 1) else (y + 1, 1, 1)) of
              (y', m', d') \<Rightarrow> valid_date y' m' d'
                \<and> ymd2ord y' m' d' = ymd2ord y m (days_in_month y m) + 1"
  proof (cases "m < 12")
    case True
    then show ?thesis
      using v days_before_month_Suc [of m y] days_in_month_bounds [of "m + 1" y]
      by (simp add: valid_date_def MINYEAR_def MAXYEAR_def ymd2ord_def)
  next
    case False
    then have m: "m = 12" using v by simp
    with r' have "y \<le> 9998" by simp
    then show ?thesis
      using v m days_before_year_Suc [of y] days_before_month_12 [of y]
        days_in_month_bounds [of 1 "y + 1"]
      by (simp add: valid_date_def MINYEAR_def MAXYEAR_def ymd2ord_def split: if_splits)
  qed
qed

text \<open>Moving a valid date by at most one day.\<close>

lemma normalize_y_m_d_shift:
  assumes v: "valid_date y m d" and sh: "sh = - 1 \<or> sh = 0 \<or> sh = 1"
  shows "1 \<le> ymd2ord y m d + sh \<and> ymd2ord y m d + sh \<le> MAXORDINAL \<Longrightarrow>
           \<exists>y' m' d'. normalize_y_m_d y m (d + sh) = Inr (y', m', d') \<and> valid_date y' m' d'
              \<and> ymd2ord y' m' d' = ymd2ord y m d + sh"
    and "\<not> (1 \<le> ymd2ord y m d + sh \<and> ymd2ord y m d + sh \<le> MAXORDINAL) \<Longrightarrow>
           normalize_y_m_d y m (d + sh) = Inl DateOverflow"
proof -
  from v have b: "1 \<le> d" "d \<le> days_in_month y m" "1 \<le> m" "m \<le> 12"
    by (simp_all add: valid_date_def)
  consider (same) "1 \<le> d + sh" "d + sh \<le> days_in_month y m"
    | (prev) "d = 1" "sh = - 1" | (succ) "d = days_in_month y m" "sh = 1"
    using b sh by fastforce
  then have
    "(1 \<le> ymd2ord y m d + sh \<and> ymd2ord y m d + sh \<le> MAXORDINAL \<longrightarrow>
           (\<exists>y' m' d'. normalize_y_m_d y m (d + sh) = Inr (y', m', d') \<and> valid_date y' m' d'
              \<and> ymd2ord y' m' d' = ymd2ord y m d + sh))
     \<and> (\<not> (1 \<le> ymd2ord y m d + sh \<and> ymd2ord y m d + sh \<le> MAXORDINAL) \<longrightarrow>
           normalize_y_m_d y m (d + sh) = Inl DateOverflow)"
  proof cases
    case same
    then have v': "valid_date y m (d + sh)" using v by (simp add: valid_date_def)
    have "ymd2ord y m (d + sh) = ymd2ord y m d + sh" by (simp add: ymd2ord_def)
    then show ?thesis
      using normalize_y_m_d_same [OF v'] ymd2ord_range [OF v'] v' by auto
  next
    case prev
    with v have v1: "valid_date y m 1" by simp
    have u: "ymd2ord y m 1 - 1 \<le> MAXORDINAL" using ymd2ord_range(2) [OF v1] by simp
    show ?thesis
      using normalize_y_m_d_prev [OF v1] prev u by (auto split: if_splits)
  next
    case succ
    with v have v1: "valid_date y m (days_in_month y m)" by simp
    have u: "1 \<le> ymd2ord y m (days_in_month y m) + 1" using ymd2ord_range(1) [OF v1] by simp
    show ?thesis
      using normalize_y_m_d_next [OF v1] succ u by (auto split: if_splits)
  qed
  then show "1 \<le> ymd2ord y m d + sh \<and> ymd2ord y m d + sh \<le> MAXORDINAL \<Longrightarrow>
           \<exists>y' m' d'. normalize_y_m_d y m (d + sh) = Inr (y', m', d') \<and> valid_date y' m' d'
              \<and> ymd2ord y' m' d' = ymd2ord y m d + sh"
    and "\<not> (1 \<le> ymd2ord y m d + sh \<and> ymd2ord y m d + sh \<le> MAXORDINAL) \<Longrightarrow>
           normalize_y_m_d y m (d + sh) = Inl DateOverflow"
    by blast+
qed

lemma mod_mult2_div:
  fixes a b c :: int
  assumes "0 < b" "0 \<le> c"
  shows "(a mod (b * c)) div b = (a div b) mod c"
proof -
  have "a mod (b * c) = b * (a div b mod c) + a mod b"
    using assms by (simp add: zmod_zmult2_eq)
  then show ?thesis using assms by simp
qed

lemma tod_split:
  fixes h mi s :: int
  defines "T \<equiv> h * 3600 + mi * 60 + s"
  shows "T mod 60 = s mod 60"
    and "T mod 3600 div 60 = (mi + s div 60) mod 60"
    and "T mod 86400 div 3600 = (h + (mi + s div 60) div 60) mod 24"
    and "T div 86400 = (h + (mi + s div 60) div 60) div 24"
proof -
  have d60: "T div 60 = h * 60 + (mi + s div 60)"
    unfolding T_def by simp
  have d3600: "T div 3600 = h + (mi + s div 60) div 60"
  proof -
    have "T div 3600 = T div 60 div 60"
      using zdiv_zmult2_eq [of 60 T 60] by simp
    then show ?thesis by (simp add: d60)
  qed
  have "T = s + 60 * (h * 60 + mi)" by (simp add: T_def)
  then show "T mod 60 = s mod 60" by (simp only: mod_mult_self2)
  show "T mod 3600 div 60 = (mi + s div 60) mod 60"
    using mod_mult2_div [of 60 60 T] by (simp add: d60)
  show "T mod 86400 div 3600 = (h + (mi + s div 60) div 60) mod 24"
    using mod_mult2_div [of 3600 24 T] by (simp add: d3600)
  show "T div 86400 = (h + (mi + s div 60) div 60) div 24"
    using zdiv_zmult2_eq [of 24 T 3600] by (simp add: d3600)
qed


lemma int_between_m1_1: "- 1 \<le> (q::int) \<Longrightarrow> q \<le> 1 \<Longrightarrow> q = - 1 \<or> q = 0 \<or> q = 1"
  by arith

lemma day_shift_bounds:
  fixes T :: int
  assumes "- 86400 < T" "T < 172800"
  shows "T div 86400 = - 1 \<or> T div 86400 = 0 \<or> T div 86400 = 1"
proof -
  have "(- 86400) div 86400 \<le> T div 86400"
    using assms by (intro zdiv_mono1) simp_all
  then have a: "- 1 \<le> T div 86400" by simp
  have "T div 86400 \<le> 172799 div 86400"
    using assms by (intro zdiv_mono1) simp_all
  then have b: "T div 86400 \<le> 1" by simp
  show ?thesis by (rule int_between_m1_1 [OF a b])
qed

lemma datetime_sub_minutes:
  fixes dt :: datetime and off :: int
  assumes v: "valid_datetime dt"
  defines "T \<equiv> tod_seconds dt - off * 60"
  shows "datetime_sub dt (timedelta_minutes off) =
     (case normalize_y_m_d (year dt) (month dt) (day dt + T div 86400) of
        Inl e \<Rightarrow> Inl e
      | Inr (y, m, d) \<Rightarrow>
          Inr (dt\<lparr>year := y, month := m, day := d, hour := T mod 86400 div 3600,
                  minute := T mod 3600 div 60, second := T mod 60\<rparr>))"
proof -
  define D where "D = (off * 60) div 86400"
  define S where "S = (off * 60) mod 86400"
  define T0 where "T0 = hour dt * 3600 + minute dt * 60 + (second dt - S)"
  have off: "off * 60 = D * 86400 + S"
    unfolding D_def S_def by (rule div_mult_mod_eq [symmetric])
  have td: "timedelta_minutes off = \<lparr>td_days = D, td_seconds = S, td_microseconds = 0\<rparr>"
    by (simp only: timedelta_minutes_def D_def S_def)
  have T: "T = T0 + 86400 * (- D)"
    by (simp add: T_def T0_def tod_seconds_def off)
  have T60: "T = T0 + 60 * (- D * 1440)" and T3600: "T = T0 + 3600 * (- D * 24)"
    by (simp_all add: T)
  have m1: "T mod 60 = T0 mod 60" by (simp only: T60 mod_mult_self2)
  have m2: "T mod 3600 = T0 mod 3600" by (simp only: T3600 mod_mult_self2)
  have m3: "T mod 86400 = T0 mod 86400" by (simp only: T mod_mult_self2)
  have d3: "T div 86400 = T0 div 86400 - D" by (simp add: T)
  from v have us: "0 \<le> microsecond dt" "microsecond dt < 1000000"
    by (simp_all add: valid_datetime_def)
  then have usd: "microsecond dt div 1000000 = 0" "microsecond dt mod 1000000 = microsecond dt"
    by simp_all
  note ts = tod_split [of "hour dt" "minute dt" "second dt - S", folded T0_def]
  define h1 where "h1 = hour dt + (minute dt + (second dt - S) div 60) div 60"
  define mi1 where "mi1 = minute dt + (second dt - S) div 60"
  have dd: "day dt - D + h1 div 24 = day dt + T div 86400"
    by (simp add: d3 ts(4) h1_def)
  have hh: "h1 mod 24 = T mod 86400 div 3600"
    by (simp add: m3 ts(3) h1_def)
  have mm: "mi1 mod 60 = T mod 3600 div 60"
    by (simp add: m2 ts(2) mi1_def)
  have ss: "(second dt - S) mod 60 = T mod 60"
    by (simp add: m1 ts(1))
  have "datetime_sub dt \<lparr>td_days = D, td_seconds = S, td_microseconds = 0\<rparr> =
     (case normalize_y_m_d (year dt) (month dt) (day dt - D + h1 div 24) of
        Inl e \<Rightarrow> Inl e
      | Inr (y, m, d) \<Rightarrow>
          Inr (dt\<lparr>year := y, month := m, day := d, hour := h1 mod 24,
                  minute := mi1 mod 60, second := (second dt - S) mod 60\<rparr>))"
    by (simp add: datetime_sub_def normalize_pair_eq usd Let_def h1_def mi1_def
        cong: sum.case_cong)
  then show ?thesis
    by (simp only: td dd hh mm ss)
qed

lemma timegm_eq:
  "timegm dt = (ymd2ord (year dt) (month dt) (day dt) - EPOCH_ORD) * 86400 + tod_seconds dt"
  by (simp add: timegm_def ymd2ord_def tod_seconds_def Let_def algebra_simps)

lemma tod_seconds_bounds:
  "valid_datetime dt \<Longrightarrow> 0 \<le> tod_seconds dt \<and> tod_seconds dt < 86400"
  by (simp add: valid_datetime_def tod_seconds_def)

lemma tod_recompose:
  fixes T :: int
  shows "T mod 86400 div 3600 * 3600 + T mod 3600 div 60 * 60 + T mod 60 = T mod 86400"
proof -
  define r where "r = T mod 86400"
  have a: "T mod 3600 = r mod 3600"
    unfolding r_def by (rule mod_mod_cancel [symmetric]) simp
  have b: "T mod 60 = (r mod 3600) mod 60"
  proof -
    have "T mod 60 = r mod 60" unfolding r_def by (rule mod_mod_cancel [symmetric]) simp
    also have "\<dots> = (r mod 3600) mod 60" by (rule mod_mod_cancel [symmetric]) simp
    finally show ?thesis .
  qed
  have "r = r div 3600 * 3600 + r mod 3600" by simp
  moreover have "r mod 3600 = r mod 3600 div 60 * 60 + (r mod 3600) mod 60" by simp
  ultimately show ?thesis unfolding a b r_def [symmetric] by linarith
qed

lemma tod_fields_bounds:
  fixes T :: int
  shows "0 \<le> T mod 86400 div 3600" "T mod 86400 div 3600 < 24"
    "0 \<le> T mod 3600 div 60" "T mod 3600 div 60 < 60" "0 \<le> T mod 60" "T mod 60 < 60"
proof -
  have "T mod 86400 div 3600 \<le> 86399 div 3600"
    by (intro zdiv_mono1) simp_all
  then show "T mod 86400 div 3600 < 24" by simp
  have "T mod 3600 div 60 \<le> 3599 div 60"
    by (intro zdiv_mono1) simp_all
  then show "T mod 3600 div 60 < 60" by simp
  show "0 \<le> T mod 86400 div 3600" "0 \<le> T mod 3600 div 60"
    by (simp_all add: pos_imp_zdiv_nonneg_iff)
  show "0 \<le> T mod 60" "T mod 60 < 60" by simp_all
qed


lemma utc_ordinal_naive:
  "valid_datetime dt \<Longrightarrow> utcoffset dt = None \<Longrightarrow>
   utc_ordinal dt = ymd2ord (year dt) (month dt) (day dt)"
  using tod_seconds_bounds [of dt] by (simp add: utc_ordinal_def offset_seconds_def)

lemma utc_normalized_aware:
  assumes v: "valid_datetime dt" and o: "utcoffset dt = Some off"
  shows "utc_in_range dt \<Longrightarrow>
           \<exists>dt'. utc_normalized dt = Inr dt' \<and> valid_datetime dt' \<and> utcoffset dt' = Some off
             \<and> epoch_us dt' = epoch_us dt - off * 60 * 1000000"
    and "\<not> utc_in_range dt \<Longrightarrow> utc_normalized dt = Inl OverflowError"
proof -
  define T where "T = tod_seconds dt - off * 60"
  define sh where "sh = T div 86400"
  from v o have ob: "- 1440 < off" "off < 1440" by (simp_all add: valid_datetime_def)
  from v have vd: "valid_date (year dt) (month dt) (day dt)" by (simp add: valid_datetime_def)
  have "- 86400 < T" "T < 172800"
    using tod_seconds_bounds [OF v] ob by (simp_all add: T_def)
  then have sh: "sh = - 1 \<or> sh = 0 \<or> sh = 1"
    unfolding sh_def by (rule day_shift_bounds)
  have uo: "utc_ordinal dt = ymd2ord (year dt) (month dt) (day dt) + sh"
    by (simp add: utc_ordinal_def offset_seconds_def o sh_def T_def)
  note sub = datetime_sub_minutes [OF v, of off, folded T_def, folded sh_def]
  {
    assume "utc_in_range dt"
    then have r: "1 \<le> ymd2ord (year dt) (month dt) (day dt) + sh
        \<and> ymd2ord (year dt) (month dt) (day dt) + sh \<le> MAXORDINAL"
      by (simp add: utc_in_range_def uo)
    from normalize_y_m_d_shift(1) [OF vd sh r] obtain y' m' d'
      where n: "normalize_y_m_d (year dt) (month dt) (day dt + sh) = Inr (y', m', d')"
        and v': "valid_date y' m' d'"
        and e: "ymd2ord y' m' d' = ymd2ord (year dt) (month dt) (day dt) + sh"
      by blast
    define dt' where "dt' = dt\<lparr>year := y', month := m', day := d',
        hour := T mod 86400 div 3600, minute := T mod 3600 div 60, second := T mod 60\<rparr>"
    have s: "datetime_sub dt (timedelta_minutes off) = Inr dt'"
      by (simp add: sub n dt'_def)
    have tod': "tod_seconds dt' = T mod 86400"
      using tod_recompose [of T] by (simp add: tod_seconds_def dt'_def)
    have T: "T = sh * 86400 + T mod 86400"
      by (simp add: sh_def)
    have "epoch_us dt' =
        ((ymd2ord (year dt) (month dt) (day dt) + sh - EPOCH_ORD) * 86400 + T mod 86400) * 1000000
        + microsecond dt"
    proof -
      have f: "year dt' = y'" "month dt' = m'" "day dt' = d'" "microsecond dt' = microsecond dt"
        by (simp_all add: dt'_def)
      show ?thesis by (simp only: epoch_us_def tod' f e)
    qed
    also have "\<dots> = ((ymd2ord (year dt) (month dt) (day dt) - EPOCH_ORD) * 86400 + T) * 1000000
        + microsecond dt"
      using T by (simp add: algebra_simps)
    also have "\<dots> = epoch_us dt - off * 60 * 1000000"
      by (simp add: epoch_us_def T_def algebra_simps)
    finally have eu: "epoch_us dt' = epoch_us dt - off * 60 * 1000000" .
    have vdt': "valid_datetime dt'"
      using v v' tod_fields_bounds [of T] o
      by (simp add: valid_datetime_def dt'_def)
    have "utc_normalized dt = Inr dt'"
      by (simp add: utc_normalized_def o s)
    moreover have "utcoffset dt' = Some off" by (simp add: dt'_def o)
    ultimately have "\<exists>dt'. utc_normalized dt = Inr dt' \<and> valid_datetime dt'
        \<and> utcoffset dt' = Some off \<and> epoch_us dt' = epoch_us dt - off * 60 * 1000000"
      using vdt' eu by blast
  }
  then show "utc_in_range dt \<Longrightarrow>
           \<exists>dt'. utc_normalized dt = Inr dt' \<and> valid_datetime dt' \<and> utcoffset dt' = Some off
             \<and> epoch_us dt' = epoch_us dt - off * 60 * 1000000" .
  assume "\<not> utc_in_range dt"
  then have r: "\<not> (1 \<le> ymd2ord (year dt) (month dt) (day dt) + sh
        \<and> ymd2ord (year dt) (month dt) (day dt) + sh \<le> MAXORDINAL)"
    by (simp add: utc_in_range_def uo)
  from normalize_y_m_d_shift(2) [OF vd sh r]
  show "utc_normalized dt = Inl OverflowError"
    by (simp add: utc_normalized_def o sub)
qed


lemma utc_normalized_naive:
  "utcoffset dt = None \<Longrightarrow> utc_normalized dt = Inr dt"
  by (simp add: utc_normalized_def)

lemma utc_in_range_naive:
  assumes "valid_datetime dt" "utcoffset dt = None"
  shows "utc_in_range dt"
proof -
  from assms(1) have "valid_date (year dt) (month dt) (day dt)" by (simp add: valid_datetime_def)
  from ymd2ord_range [OF this] show ?thesis
    by (simp add: utc_in_range_def utc_ordinal_naive [OF assms])
qed

lemma utc_normalized_in_range:
  assumes v: "valid_datetime dt" and r: "utc_in_range dt"
  shows "\<exists>dt'. utc_normalized dt = Inr dt' \<and> valid_datetime dt'
           \<and> epoch_us dt' = epoch_us dt - offset_seconds dt * 1000000"
proof (cases "utcoffset dt")
  case None
  then show ?thesis using v by (simp add: utc_normalized_naive offset_seconds_def)
next
  case (Some off)
  from utc_normalized_aware(1) [OF v Some r] show ?thesis
    by (auto simp: offset_seconds_def Some)
qed

lemma utc_normalized_out_of_range:
  assumes v: "valid_datetime dt" and r: "\<not> utc_in_range dt"
  shows "utc_normalized dt = Inl OverflowError"
proof (cases "utcoffset dt")
  case None
  with utc_in_range_naive [OF v] r show ?thesis by simp
next
  case (Some off)
  from utc_normalized_aware(2) [OF v Some r] show ?thesis .
qed

lemma epoch_us_timegm: "epoch_us dt = timegm dt * 1000000 + microsecond dt"
  by (simp add: epoch_us_def timegm_eq)

lemma epoch_us_split:
  assumes "valid_datetime dt"
  shows "timegm dt = epoch_us dt div 1000000" "microsecond dt = epoch_us dt mod 1000000"
    "timegm dt * 1000 + microsecond dt div 1000 = epoch_us dt div 1000"
proof -
  from assms have us: "0 \<le> microsecond dt" "microsecond dt < 1000000"
    by (simp_all add: valid_datetime_def)
  have e: "epoch_us dt = microsecond dt + 1000000 * timegm dt"
    by (simp add: epoch_us_timegm)
  show "timegm dt = epoch_us dt div 1000000"
    using us by (simp add: e)
  show "microsecond dt = epoch_us dt mod 1000000"
    using us by (simp add: e)
  have "epoch_us dt = microsecond dt + 1000 * (timegm dt * 1000)"
    by (simp add: e)
  then have "epoch_us dt div 1000 = microsecond dt div 1000 + timegm dt * 1000"
    by simp
  then show "timegm dt * 1000 + microsecond dt div 1000 = epoch_us dt div 1000" by simp
qed

lemma datetime_sub_zero:
  assumes v: "valid_datetime dt"
  shows "datetime_sub dt (timedelta_minutes 0) = Inr dt"
proof -
  from v have b: "0 \<le> hour dt" "hour dt < 24" "0 \<le> minute dt" "minute dt < 60"
     "0 \<le> second dt" "second dt < 60" "valid_date (year dt) (month dt) (day dt)"
    by (simp_all add: valid_datetime_def)
  define T where "T = tod_seconds dt - 0 * 60"
  have T: "T = hour dt * 3600 + minute dt * 60 + second dt"
    by (simp add: T_def tod_seconds_def)
  have "0 \<le> T" "T < 86400" using tod_seconds_bounds [OF v] by (simp_all add: T_def)
  then have d: "T div 86400 = 0" and m: "T mod 86400 = T" by simp_all
  note ts = tod_split [of "hour dt" "minute dt" "second dt", folded T]
  have f: "T mod 86400 div 3600 = hour dt" "T mod 3600 div 60 = minute dt"
      "T mod 60 = second dt"
    using b by (simp_all add: ts)
  show ?thesis
    using datetime_sub_minutes [OF v, of 0, folded T_def]
    by (simp add: d f normalize_y_m_d_same [OF b(7)])
qed

lemmas calendar_eval =
  valid_datetime_def valid_date_def MINYEAR_def MAXYEAR_def MAXORDINAL_def EPOCH_ORD_def
  days_in_month_def days_before_month_def days_before_year_def is_leap_def ymd2ord_def
  DAYS_IN_MONTH_def DAYS_BEFORE_MONTH_def mk_datetime_def utc_in_range_def utc_ordinal_def
  tod_seconds_def offset_seconds_def epoch_us_def

subsection \<open>Encoding datetimes\<close>

text \<open>
  C7 (as amended). For a valid datetime whose UTC day lies in the years 1 to 9999,
  \<^verbatim>\<open>default\<close> subtracts the UTC offset (when there is one) and returns \<^verbatim>\<open>{"$date": m}\<close>
  with \<open>m\<close> the whole seconds since the epoch times 1000 plus the microseconds divided by
  1000, rounded down: with \<open>u\<close> the microseconds between the epoch and the UTC instant,
  \<open>m = u div 1000000 * 1000 + u mod 1000000 div 1000\<close>. Where the subtraction leaves the
  years 1 to 9999 the call ends in \<^verbatim>\<open>OverflowError\<close>.
\<close>

theorem default_datetime_millis:
  assumes "valid_datetime dt"
  shows "(utc_in_range dt \<longrightarrow>
            (\<exists>dt'. utc_normalized dt = Inr dt'
               \<and> epoch_us dt' = epoch_us dt - offset_seconds dt * 1000000
               \<and> timegm dt' = epoch_us dt' div 1000000
               \<and> microsecond dt' = epoch_us dt' mod 1000000
               \<and> default_hook E (PDatetime dt)
                   = Inr [(''$date'', PInt (timegm dt' * 1000 + microsecond dt' div 1000))]))
       \<and> (utc_in_range dt \<longrightarrow>
            default_hook E (PDatetime dt)
              = Inr [(''$date'',
                      PInt ((epoch_us dt - offset_seconds dt * 1000000) div 1000000 * 1000
                            + (epoch_us dt - offset_seconds dt * 1000000) mod 1000000 div 1000))])
       \<and> (\<not> utc_in_range dt \<longrightarrow> default_hook E (PDatetime dt) = Inl OverflowError)"
proof (intro conjI impI)
  assume r: "utc_in_range dt"
  from utc_normalized_in_range [OF assms r] obtain dt'
    where n: "utc_normalized dt = Inr dt'" and v': "valid_datetime dt'"
      and e: "epoch_us dt' = epoch_us dt - offset_seconds dt * 1000000"
    by blast
  have d: "default_hook E (PDatetime dt)
      = Inr [(''$date'', PInt (timegm dt' * 1000 + microsecond dt' div 1000))]"
    by (simp add: n)
  show "\<exists>dt'. utc_normalized dt = Inr dt'
               \<and> epoch_us dt' = epoch_us dt - offset_seconds dt * 1000000
               \<and> timegm dt' = epoch_us dt' div 1000000
               \<and> microsecond dt' = epoch_us dt' mod 1000000
               \<and> default_hook E (PDatetime dt)
                   = Inr [(''$date'', PInt (timegm dt' * 1000 + microsecond dt' div 1000))]"
    using n e d epoch_us_split(1,2) [OF v'] by blast
  show "default_hook E (PDatetime dt)
              = Inr [(''$date'',
                      PInt ((epoch_us dt - offset_seconds dt * 1000000) div 1000000 * 1000
                            + (epoch_us dt - offset_seconds dt * 1000000) mod 1000000 div 1000))]"
    using d epoch_us_split(1,2) [OF v'] by (simp only: e)
next
  assume "\<not> utc_in_range dt"
  from utc_normalized_out_of_range [OF assms this]
  show "default_hook E (PDatetime dt) = Inl OverflowError" by simp
qed

lemma valid_examples:
  "valid_datetime (mk_datetime 2010 1 1 0 0 0 0 (Some 0))"
  "valid_datetime (mk_datetime 2010 1 1 2 30 0 123456 (Some 150))"
  "valid_datetime (mk_datetime 9999 12 31 23 0 0 0 (Some (- 60)))"
  "valid_datetime (mk_datetime 1 1 1 0 0 0 0 (Some 60))"
  "valid_datetime (mk_datetime 2010 1 1 0 0 0 0 None)"
  by (simp_all add: calendar_eval)

lemma in_range_examples:
  "utc_in_range (mk_datetime 2010 1 1 0 0 0 0 (Some 0))"
  "utc_in_range (mk_datetime 2010 1 1 2 30 0 123456 (Some 150))"
  "\<not> utc_in_range (mk_datetime 9999 12 31 23 0 0 0 (Some (- 60)))"
  "\<not> utc_in_range (mk_datetime 1 1 1 0 0 0 0 (Some 60))"
  by (simp_all add: calendar_eval)

lemma epoch_us_examples:
  "epoch_us (mk_datetime 2010 1 1 0 0 0 0 (Some 0)) = 1262304000000000"
  "epoch_us (mk_datetime 2010 1 1 2 30 0 123456 (Some 150)) = 1262313000123456"
  "epoch_us (mk_datetime 2010 1 1 0 0 0 0 None) = 1262304000000000"
  by (simp_all add: calendar_eval)

lemma offset_seconds_examples:
  "offset_seconds (mk_datetime y m d h mi s us (Some off)) = off * 60"
  "offset_seconds (mk_datetime y m d h mi s us None) = 0"
  by (simp_all add: offset_seconds_def mk_datetime_def)

theorem default_datetime_millis_witness:
  "default_hook env0 (PDatetime (mk_datetime 2010 1 1 0 0 0 0 (Some 0)))
     = Inr [(''$date'', PInt 1262304000000)]
   \<and> default_hook env0 (PDatetime (mk_datetime 2010 1 1 2 30 0 123456 (Some 150)))
     = Inr [(''$date'', PInt 1262304000123)]
   \<and> default_hook env0 (PDatetime (mk_datetime 9999 12 31 23 0 0 0 (Some (- 60))))
     = Inl OverflowError"
proof (intro conjI)
  show "default_hook env0 (PDatetime (mk_datetime 2010 1 1 0 0 0 0 (Some 0)))
     = Inr [(''$date'', PInt 1262304000000)]"
    using default_datetime_millis [OF valid_examples(1), of env0, THEN conjunct2,
        THEN conjunct1, rule_format, OF in_range_examples(1)]
    by (simp only: epoch_us_examples offset_seconds_examples) simp
  show "default_hook env0 (PDatetime (mk_datetime 2010 1 1 2 30 0 123456 (Some 150)))
     = Inr [(''$date'', PInt 1262304000123)]"
    using default_datetime_millis [OF valid_examples(2), of env0, THEN conjunct2,
        THEN conjunct1, rule_format, OF in_range_examples(2)]
    by (simp only: epoch_us_examples offset_seconds_examples) simp
  show "default_hook env0 (PDatetime (mk_datetime 9999 12 31 23 0 0 0 (Some (- 60))))
     = Inl OverflowError"
    using default_datetime_millis [OF valid_examples(3), of env0, THEN conjunct2,
        THEN conjunct2, rule_format, OF in_range_examples(3)] .
qed

text \<open>
  C7 as stated fails at the edge of the year range: 0001-01-01T00:00:00+01:00 is a valid
  datetime, and subtracting its offset leaves year 1.
\<close>

theorem default_datetime_millis_counterexample:
  "valid_datetime (mk_datetime 1 1 1 0 0 0 0 (Some 60))
   \<and> default_hook env0 (PDatetime (mk_datetime 1 1 1 0 0 0 0 (Some 60))) = Inl OverflowError"
  using utc_normalized_out_of_range [OF valid_examples(4) in_range_examples(4)] valid_examples(4)
  by simp

subsection \<open>Unsupported types\<close>

text \<open>
  C5 (as amended). \<^verbatim>\<open>default\<close> raises the unsupported-type error, carrying the value's
  representation, exactly when its argument is of none of the seven recognized types.
  For a value of a recognized type it never raises that error, and it returns a mapping
  unless the value is an offset-aware datetime whose offset subtraction overflows; for a
  valid datetime that is exactly when its UTC day lies outside the years 1 to 9999, and
  the error is then \<^verbatim>\<open>OverflowError\<close>.
\<close>

theorem default_unsupported_iff:
  "(default_hook E obj = Inl (UnsupportedType (py_repr E obj)) \<longleftrightarrow> \<not> recognized obj)
   \<and> ((\<exists>r. default_hook E obj = Inl (UnsupportedType r)) \<longleftrightarrow> \<not> recognized obj)
   \<and> (recognized obj \<longrightarrow>
        (\<exists>d. default_hook E obj = Inr d)
        \<or> (\<exists>dt off. obj = PDatetime dt \<and> utcoffset dt = Some off
               \<and> default_hook E obj = Inl OverflowError))
   \<and> (\<forall>dt. obj = PDatetime dt \<and> valid_datetime dt \<longrightarrow>
         ((\<exists>d. default_hook E obj = Inr d) \<longleftrightarrow> utc_in_range dt)
         \<and> (default_hook E obj = Inl OverflowError \<longleftrightarrow> \<not> utc_in_range dt))"
proof (intro conjI allI impI)
  show "default_hook E obj = Inl (UnsupportedType (py_repr E obj)) \<longleftrightarrow> \<not> recognized obj"
    by (cases obj) (auto simp: recognized_def utc_normalized_def split: sum.splits option.splits)
  show "(\<exists>r. default_hook E obj = Inl (UnsupportedType r)) \<longleftrightarrow> \<not> recognized obj"
    by (cases obj) (auto simp: recognized_def utc_normalized_def split: sum.splits option.splits)
  show "(\<exists>d. default_hook E obj = Inr d)
        \<or> (\<exists>dt off. obj = PDatetime dt \<and> utcoffset dt = Some off
               \<and> default_hook E obj = Inl OverflowError)" if "recognized obj"
    using that
    by (cases obj) (auto simp: recognized_def utc_normalized_def split: sum.splits option.splits)
next
  fix dt
  assume a: "obj = PDatetime dt \<and> valid_datetime dt"
  then have v: "valid_datetime dt" and o: "obj = PDatetime dt" by simp_all
  show "(\<exists>d. default_hook E obj = Inr d) \<longleftrightarrow> utc_in_range dt"
    using utc_normalized_in_range [OF v] utc_normalized_out_of_range [OF v]
    by (cases "utc_in_range dt") (auto simp: o)
  show "default_hook E obj = Inl OverflowError \<longleftrightarrow> \<not> utc_in_range dt"
    using utc_normalized_in_range [OF v] utc_normalized_out_of_range [OF v]
    by (cases "utc_in_range dt") (auto simp: o)
qed

theorem default_unsupported_iff_witness:
  "default_hook env0 (PBinary ''abc'' 2) = Inl (UnsupportedType ''<object>'')
   \<and> default_hook env0 (PStr ''abc'') = Inl (UnsupportedType ''<object>'')
   \<and> default_hook env0 PMinKey \<noteq> Inl (UnsupportedType (py_repr env0 PMinKey))
   \<and> (\<exists>d. default_hook env0 (PDatetime (mk_datetime 2010 1 1 0 0 0 0 (Some 0))) = Inr d)"
  using default_unsupported_iff [of env0 "PBinary ''abc'' 2"]
    default_unsupported_iff [of env0 "PStr ''abc''"]
    default_unsupported_iff [of env0 PMinKey]
    default_unsupported_iff [of env0 "PDatetime (mk_datetime 2010 1 1 0 0 0 0 (Some 0))",
      THEN conjunct2, THEN conjunct2, THEN conjunct2, rule_format,
      of "mk_datetime 2010 1 1 0 0 0 0 (Some 0)"]
    valid_examples(1) in_range_examples(1)
  by (simp add: recognized_def env0_def)

text \<open>
  C5 as stated fails for the recognized value 0001-01-01T00:00:00+01:00, for which no
  mapping is returned.
\<close>

theorem default_unsupported_iff_counterexample:
  "recognized (PDatetime (mk_datetime 1 1 1 0 0 0 0 (Some 60)))
   \<and> valid_datetime (mk_datetime 1 1 1 0 0 0 0 (Some 60))
   \<and> default_hook env0 (PDatetime (mk_datetime 1 1 1 0 0 0 0 (Some 60))) = Inl OverflowError"
  using utc_normalized_out_of_range [OF valid_examples(4) in_range_examples(4)] valid_examples(4)
  by (simp add: recognized_def)

subsection \<open>Naive datetimes\<close>

text \<open>
  C9. A valid naive datetime is encoded as if its fields were UTC: the mapping is the one
  of the same fields tagged with a zero UTC offset, and the milliseconds are computed from
  the fields alone (the microseconds since the epoch of the wall clock, divided by 1000).
\<close>

theorem naive_datetime_as_utc:
  assumes "valid_datetime dt" "utcoffset dt = None"
  shows "default_hook E (PDatetime dt)
           = Inr [(''$date'', PInt (timegm dt * 1000 + microsecond dt div 1000))]
       \<and> default_hook E (PDatetime (dt\<lparr>utcoffset := Some 0\<rparr>))
           = Inr [(''$date'', PInt (timegm dt * 1000 + microsecond dt div 1000))]
       \<and> default_hook E (PDatetime dt) = default_hook E (PDatetime (dt\<lparr>utcoffset := Some 0\<rparr>))
       \<and> timegm dt * 1000 + microsecond dt div 1000 = epoch_us dt div 1000"
proof -
  have v0: "valid_datetime (dt\<lparr>utcoffset := Some 0\<rparr>)"
    using assms(1) by (simp add: valid_datetime_def)
  have n: "utc_normalized (dt\<lparr>utcoffset := Some 0\<rparr>) = Inr (dt\<lparr>utcoffset := Some 0\<rparr>)"
    by (simp add: utc_normalized_def datetime_sub_zero [OF v0])
  have t: "timegm (dt\<lparr>utcoffset := Some 0\<rparr>) = timegm dt"
    by (simp add: timegm_def)
  have a: "default_hook E (PDatetime dt)
           = Inr [(''$date'', PInt (timegm dt * 1000 + microsecond dt div 1000))]"
    by (simp add: utc_normalized_naive [OF assms(2)])
  have b: "default_hook E (PDatetime (dt\<lparr>utcoffset := Some 0\<rparr>))
           = Inr [(''$date'', PInt (timegm dt * 1000 + microsecond dt div 1000))]"
    by (simp add: n t)
  show ?thesis using a b epoch_us_split(3) [OF assms(1)] by simp
qed

theorem naive_datetime_as_utc_witness:
  "default_hook env0 (PDatetime (mk_datetime 2010 1 1 0 0 0 0 None))
     = Inr [(''$date'', PInt 1262304000000)]
   \<and> default_hook env0 (PDatetime (mk_datetime 2010 1 1 0 0 0 0 None))
     = default_hook env0 (PDatetime (mk_datetime 2010 1 1 0 0 0 0 (Some 0)))"
proof -
  have o: "utcoffset (mk_datetime 2010 1 1 0 0 0 0 None) = None"
    by (simp add: mk_datetime_def)
  have u: "(mk_datetime 2010 1 1 0 0 0 0 None)\<lparr>utcoffset := Some 0\<rparr>
      = mk_datetime 2010 1 1 0 0 0 0 (Some 0)"
    by (simp add: mk_datetime_def)
  from naive_datetime_as_utc [OF valid_examples(5) o, of env0] show ?thesis
    by (simp only: u epoch_us_examples) simp
qed

end
